theory Spec2Isabelle
  imports Complex_Main "HOL-Library.Sublist" "HOL-Library.Multiset"
begin

section \<open>Data model\<close>

text \<open>
  A data frame is modelled as the list of its rows, in index order; the index labels are
  the row positions, hence unique, as in the team frame that \<open>get_stats\<close> reads from a
  single table. A row of a normalised table has the columns \<open>x\<close>, \<open>y\<close> and \<open>date\<close>;
  classification adds \<open>color\<close> and \<open>ecolor\<close>. Python integers are unbounded, so \<open>int\<close>.
\<close>

record game_row =
  x :: int
  y :: int
  date :: string

record colored_row = game_row +
  color :: string
  ecolor :: string

text \<open>The exceptions of the modelled functions.\<close>

datatype error = IndexError | KeyError | ValueError | ZeroDivisionError

section \<open>Coordinate normaliser (utils.py)\<close>

text \<open>
  Strings are lists of 8-bit characters and the digits of \<open>\d\<close> are the ASCII digits;
  a label with other Unicode decimal digits is outside the model. \<open>re.findall(r"\d+", s)\<close>
  returns the maximal runs of digits of \<open>s\<close> from left to right.
\<close>

definition is_digit :: "char \<Rightarrow> bool" where
  "is_digit c = (c \<in> set ''0123456789'')"

function findall_digits :: "string \<Rightarrow> string list" where
  "findall_digits [] = []"
| "findall_digits (c # cs) =
     (if is_digit c
      then (c # takeWhile is_digit cs) # findall_digits (dropWhile is_digit cs)
      else findall_digits cs)"
  by pat_completeness auto
termination
  by (relation "measure length") (auto simp: length_dropWhile_le less_Suc_eq_le)

text \<open>\<open>int(i)\<close> of a run of digits, and \<open>str\<close> of an integer (as in an f-string).\<close>

definition digit_value :: "char \<Rightarrow> int" where
  "digit_value c = int (of_char c) - 48"

definition int_of_digits :: "string \<Rightarrow> int" where
  "int_of_digits ds = foldl (\<lambda>a c. 10 * a + digit_value c) 0 ds"




text \<open>\<open>score_to_tuple\<close>; \<open>None\<close> is Python's \<open>None\<close>.\<close>

definition score_to_tuple :: "string \<Rightarrow> int list option" where
  "score_to_tuple score =
     (if \<not> list_all (\<lambda>i. i \<in> set ''0123456789-WLOT '') score then None
      else let numbers = take 2 (map int_of_digits (findall_digits score))
           in if CHR ''W'' \<in> set score then Some numbers else Some (rev numbers))"






section \<open>Row matcher (utils.py)\<close>

text \<open>
  \<open>df == row\<close> compares every row of the frame with the series, column by column
  (the columns of both are \<open>x\<close>, \<open>y\<close>, \<open>date\<close>); \<open>.all(1)\<close> folds each row of booleans
  with "and", \<open>.any()\<close> folds the resulting column with "or".
\<close>

definition df_eq_row :: "game_row list \<Rightarrow> game_row \<Rightarrow> bool list list" where
  "df_eq_row df row = map (\<lambda>r. [x r = x row, y r = y row, date r = date row]) df"

definition all_1 :: "bool list list \<Rightarrow> bool list" where
  "all_1 cells = map (\<lambda>bs. list_all id bs) cells"

definition any_col :: "bool list \<Rightarrow> bool" where
  "any_col bs = list_ex id bs"

definition row_in_df :: "game_row \<Rightarrow> game_row list \<Rightarrow> bool" where
  "row_in_df row df = any_col (all_1 (df_eq_row df row))"

text \<open>
  \<open>keep_row_if_in_df\<close> returns \<open>row_original\<close>, or the empty series \<open>pd.Series([])\<close>,
  modelled as \<open>None\<close>. The original row may carry more columns than the probe.
\<close>

definition keep_row_if_in_df :: "game_row list \<Rightarrow> 'a \<Rightarrow> game_row \<Rightarrow> 'a option" where
  "keep_row_if_in_df df row_original row_changed =
     (if row_in_df row_changed df then Some row_original else None)"

section \<open>Participation classifier (parsing.py)\<close>

text \<open>
  \<open>dict_colors\<close> is the dictionary built at the start of \<open>in_dfs_to_color\<close>, with its four
  keys in the order of the source. The two player frames and the two player colours are
  taken as pairs (\<open>Tuple[pd.DataFrame, pd.DataFrame]\<close>, \<open>Tuple[str, str]\<close>).
\<close>

fun dict_colors :: "string \<times> string \<Rightarrow> string \<Rightarrow> string \<Rightarrow> bool \<times> bool \<Rightarrow> string" where
  "dict_colors player_colors both_color neutral_color (False, False) = neutral_color"
| "dict_colors player_colors both_color neutral_color (True, False) = fst player_colors"
| "dict_colors player_colors both_color neutral_color (False, True) = snd player_colors"
| "dict_colors player_colors both_color neutral_color (True, True) = both_color"

definition set_colors :: "game_row \<Rightarrow> string \<Rightarrow> string \<Rightarrow> colored_row" where
  "set_colors r c e = \<lparr>x = x r, y = y r, date = date r, color = c, ecolor = e\<rparr>"

definition in_dfs_to_color ::
  "game_row list \<Rightarrow> game_row list \<times> game_row list \<Rightarrow> string \<times> string \<Rightarrow>
   string \<Rightarrow> string \<Rightarrow> string \<Rightarrow> colored_row list" where
  "in_dfs_to_color df dfs_compare player_colors both_color neutral_color neutral_ecolor =
     (let flags = map (\<lambda>row. (row_in_df row (fst dfs_compare),
                                 row_in_df row (snd dfs_compare))) df;
          colors = map (dict_colors player_colors both_color neutral_color) flags;
          ecolors = map (\<lambda>c. if c \<noteq> neutral_color then c else neutral_ecolor) colors
      in map (\<lambda>(r, c, e). set_colors r c e) (zip df (zip colors ecolors)))"

section \<open>Category splitter (parsing.py)\<close>

text \<open>\<open>df[mask]\<close>: the rows of the frame at which the boolean series is true.\<close>

definition select_rows :: "'a list \<Rightarrow> bool list \<Rightarrow> 'a list" where
  "select_rows df criteria = map fst (filter snd (zip df criteria))"

text \<open>
  A cell of a frame can be missing (NaN): \<open>None\<close>. \<open>nan_row\<close> is a row of missing cells,
  \<open>cells_of\<close> a classified row as a row of present cells.
\<close>

record cell_row =
  cell_x :: "int option"
  cell_y :: "int option"
  cell_date :: "string option"
  cell_color :: "string option"
  cell_ecolor :: "string option"

definition nan_row :: cell_row where
  "nan_row = \<lparr>cell_x = None, cell_y = None, cell_date = None,
              cell_color = None, cell_ecolor = None\<rparr>"

definition cells_of :: "colored_row \<Rightarrow> cell_row" where
  "cells_of r = \<lparr>cell_x = Some (x r), cell_y = Some (y r), cell_date = Some (date r),
                 cell_color = Some (color r), cell_ecolor = Some (ecolor r)\<rparr>"

text \<open>
  \<open>frame[column] = series\<close> in pandas, on rows and values paired with their index labels.
  A frame without rows first takes the index of a series that has values, every other
  cell of the new rows missing; then each row gets the value at its label (missing
  when the series has none). \<open>put\<close> stores a value in the column.
\<close>

definition assign_column ::
  "(string option \<Rightarrow> cell_row \<Rightarrow> cell_row) \<Rightarrow> (nat \<times> cell_row) list \<Rightarrow>
   (nat \<times> string) list \<Rightarrow> (nat \<times> cell_row) list" where
  "assign_column put frame series =
     (let frame' = (if frame = [] \<and> series \<noteq> []
                    then map (\<lambda>(l, v). (l, nan_row)) series else frame)
      in map (\<lambda>(l, r). (l, put (map_of series l) r)) frame')"

text \<open>
  \<open>get_plotting_dfs\<close>. The index labels of \<open>df\<close> are its row positions. \<open>df_color_no\<close>
  is assigned, as \<open>color\<close> and then as \<open>ecolor\<close>, a series over all of \<open>df\<close> that is
  \<open>neutral_color\<close> everywhere. The source's parameter \<open>color\<close> is called \<open>keep_color\<close>
  here, \<open>color\<close> being the column.
\<close>

definition get_plotting_dfs ::
  "colored_row list \<Rightarrow> string \<Rightarrow> string \<Rightarrow> cell_row list \<times> colored_row list" where
  "get_plotting_dfs df keep_color neutral_color =
     (let color_criteria = map (\<lambda>r. color r = keep_color) df;
          df_color_yes = select_rows df color_criteria;
          df_color_no = select_rows (enumerate 0 (map cells_of df)) (map Not color_criteria);
          df_color_no = assign_column (\<lambda>v r. r\<lparr>cell_color := v\<rparr>) df_color_no
                          (enumerate 0 (map (\<lambda>c. neutral_color) (map color df)));
          df_color_no = assign_column (\<lambda>v r. r\<lparr>cell_ecolor := v\<rparr>) df_color_no
                          (enumerate 0 (map (\<lambda>c. neutral_color) (map ecolor df)))
      in (map snd df_color_no, df_color_yes))"

section \<open>Aggregator and joint sorter (utils.py, parsing.py)\<close>

text \<open>
  A Python number is an \<open>int\<close> or a \<open>float\<close>. A finite float is a rational number, and
  Python compares numbers by their exact values, so \<open>PyFloat q\<close> stands for the float of
  value \<open>q\<close>. What the floating-point operations round to is not modelled: true division
  of integers, multiplication by an integer and \<open>round\<close> to a number of digits are
  parameters of the model.
\<close>

datatype pynum = PyInt int | PyFloat rat

fun num_val :: "pynum \<Rightarrow> rat" where
  "num_val (PyInt i) = of_int i"
| "num_val (PyFloat q) = q"

record float_ops =
  truediv :: "int \<Rightarrow> int \<Rightarrow> rat"
  mul_int :: "rat \<Rightarrow> int \<Rightarrow> rat"
  round_ndigits :: "rat \<Rightarrow> int \<Rightarrow> rat"

text \<open>\<open>a / b\<close> on integers raises ZeroDivisionError when \<open>b\<close> is zero.\<close>

definition py_truediv :: "float_ops \<Rightarrow> int \<Rightarrow> int \<Rightarrow> error + rat" where
  "py_truediv ops a b = (if b = 0 then Inl ZeroDivisionError else Inr (truediv ops a b))"

text \<open>
  \<open>get_wins_percentage\<close>: \<open>round(len(df[df.x < df.y]) / len(df) * 100, precision)\<close>,
  with the handler that turns ZeroDivisionError into the integer \<open>0\<close>.
\<close>

definition get_wins_percentage ::
  "float_ops \<Rightarrow> 'a game_row_scheme list \<Rightarrow> int \<Rightarrow> error + pynum" where
  "get_wins_percentage ops df precision =
     (case py_truediv ops (int (length (select_rows df (map (\<lambda>r. x r < y r) df))))
                          (int (length df)) of
        Inr q \<Rightarrow> Inr (PyFloat (round_ndigits ops (mul_int ops q 100) precision))
      | Inl e \<Rightarrow> (if e = ZeroDivisionError then Inr (PyInt 0) else Inl e))"

text \<open>
  The rows that \<open>sorted\<close> compares in \<open>sort_as_one\<close> are the tuples
  (ratio, dataset pair, colour, label). Python compares tuples from the left: the first
  components that are not \<open>==\<close> decide by \<open><\<close>. When the ratios are equal the comparison
  goes on to \<open>==\<close> on the two dataset pairs and so on their first frames. These are
  different objects (\<open>get_plotting_dfs\<close> builds new frames for every colour), and \<open>==\<close> on
  two frames raises ValueError when their labels differ and otherwise returns a frame,
  whose truth value raises ValueError.
\<close>

type_synonym frame_pair = "cell_row list \<times> colored_row list"

type_synonym sort_row = "pynum \<times> frame_pair \<times> string \<times> string"

definition tuple_lt :: "sort_row \<Rightarrow> sort_row \<Rightarrow> error + bool" where
  "tuple_lt a b =
     (if num_val (fst a) \<noteq> num_val (fst b) then Inr (num_val (fst a) < num_val (fst b))
      else Inl ValueError)"

text \<open>
  \<open>sorted\<close> is a stable comparison sort that uses \<open><\<close> only (on short lists CPython
  inserts each element into the sorted prefix, behind the elements that are not greater);
  an exception of a comparison ends it. With \<open>reverse = True\<close> the list is reversed
  before and after sorting.
\<close>

fun insert_sorted :: "('a \<Rightarrow> 'a \<Rightarrow> error + bool) \<Rightarrow> 'a \<Rightarrow> 'a list \<Rightarrow> error + 'a list" where
  "insert_sorted lt a [] = Inr [a]"
| "insert_sorted lt a (b # bs) =
     (case lt a b of
        Inl e \<Rightarrow> Inl e
      | Inr True \<Rightarrow> Inr (a # b # bs)
      | Inr False \<Rightarrow> (case insert_sorted lt a bs of
                        Inl e \<Rightarrow> Inl e
                      | Inr rest \<Rightarrow> Inr (b # rest)))"

fun sort_from :: "('a \<Rightarrow> 'a \<Rightarrow> error + bool) \<Rightarrow> 'a list \<Rightarrow> 'a list \<Rightarrow> error + 'a list" where
  "sort_from lt acc [] = Inr acc"
| "sort_from lt acc (a # todo) =
     (case insert_sorted lt a acc of
        Inl e \<Rightarrow> Inl e
      | Inr acc' \<Rightarrow> sort_from lt acc' todo)"

definition sorted_py :: "('a \<Rightarrow> 'a \<Rightarrow> error + bool) \<Rightarrow> bool \<Rightarrow> 'a list \<Rightarrow> error + 'a list" where
  "sorted_py lt reverse xs =
     (if reverse
      then (case sort_from lt [] (rev xs) of Inl e \<Rightarrow> Inl e | Inr ys \<Rightarrow> Inr (rev ys))
      else sort_from lt [] xs)"

text \<open>
  \<open>zip(*rows)\<close> turns the sorted rows back into four parallel sequences; of no rows it
  yields nothing at all.
\<close>

datatype columns =
  NoColumns
| Columns "pynum list" "frame_pair list" "string list" "string list"

fun unzip_rows :: "sort_row list \<Rightarrow> columns" where
  "unzip_rows [] = NoColumns"
| "unzip_rows (r # rs) =
     Columns (map fst (r # rs)) (map (fst \<circ> snd) (r # rs))
             (map (fst \<circ> snd \<circ> snd) (r # rs)) (map (snd \<circ> snd \<circ> snd) (r # rs))"

definition zip_rows ::
  "pynum list \<Rightarrow> frame_pair list \<Rightarrow> string list \<Rightarrow> string list \<Rightarrow> sort_row list" where
  "zip_rows percentages df_tuples colors text_ends =
     zip percentages (zip df_tuples (zip colors text_ends))"

definition sort_as_one ::
  "pynum list \<Rightarrow> frame_pair list \<Rightarrow> string list \<Rightarrow> string list \<Rightarrow> bool \<Rightarrow> error + columns" where
  "sort_as_one percentages df_tuples colors text_ends reverse =
     (case sorted_py tuple_lt reverse (zip_rows percentages df_tuples colors text_ends) of
        Inl e \<Rightarrow> Inl e
      | Inr rows \<Rightarrow> Inr (unzip_rows rows))"

text \<open>A list comprehension over calls that may raise: the first exception ends it.\<close>

fun collect :: "(error + 'a) list \<Rightarrow> error + 'a list" where
  "collect [] = Inr []"
| "collect (Inl e # rs) = Inl e"
| "collect (Inr v # rs) = (case collect rs of Inl e \<Rightarrow> Inl e | Inr vs \<Rightarrow> Inr (v # vs))"

text \<open>\<open>get_final_data\<close>, with the two player names as a pair.\<close>

definition get_final_data ::
  "float_ops \<Rightarrow> colored_row list \<Rightarrow> string list \<Rightarrow> string \<Rightarrow> string \<times> string \<Rightarrow>
   error + columns" where
  "get_final_data ops df colors neutral_color player_names =
     (let df_tuples = map (\<lambda>c. get_plotting_dfs df c neutral_color) colors
      in case collect (map (\<lambda>c. get_wins_percentage ops
                                   (select_rows df (map (\<lambda>r. color r = c) df)) 2) colors) of
           Inl e \<Rightarrow> Inl e
         | Inr percentages \<Rightarrow>
             (let text_ends =
                [''with '' @ fst player_names @ '' and no '' @ snd player_names,
                 ''with '' @ snd player_names @ '' and no '' @ fst player_names,
                 ''with both '' @ fst player_names @ '' and '' @ snd player_names,
                 ''with neither '' @ fst player_names @ '' and '' @ snd player_names]
              in sort_as_one percentages df_tuples colors text_ends True))"

text \<open>
  The four participation categories of the classification table, with the pair of
  membership flags and the colour that the table gives to each.
\<close>

datatype category = Neither | Player1Only | Player2Only | Both

fun category_flags :: "category \<Rightarrow> bool \<times> bool" where
  "category_flags Neither = (False, False)"
| "category_flags Player1Only = (True, False)"
| "category_flags Player2Only = (False, True)"
| "category_flags Both = (True, True)"

fun category_color :: "string \<times> string \<Rightarrow> string \<Rightarrow> string \<Rightarrow> category \<Rightarrow> string" where
  "category_color player_colors both_color neutral_color Neither = neutral_color"
| "category_color player_colors both_color neutral_color Player1Only = fst player_colors"
| "category_color player_colors both_color neutral_color Player2Only = snd player_colors"
| "category_color player_colors both_color neutral_color Both = both_color"

section \<open>Properties of the row matcher\<close>

lemma row_eq_iff:
  "(x r = x row \<and> y r = y row \<and> date r = date row) \<longleftrightarrow> r = (row :: game_row)"
  by (cases r, cases row) auto

lemma row_in_df_set: "row_in_df row df \<longleftrightarrow> row \<in> set df"
  by (auto simp: row_in_df_def any_col_def all_1_def df_eq_row_def list_ex_iff row_eq_iff)

text \<open>
  C8: \<open>row_in_df row df\<close> holds exactly when some row of the table agrees with \<open>row\<close> on
  every column (\<open>x\<close>, \<open>y\<close> as integers, \<open>date\<close> as a string), and \<open>keep_row_if_in_df\<close>
  returns the original row when the probe is found that way and the empty row otherwise.
\<close>

theorem row_matcher_exact:
  "(row_in_df row df \<longleftrightarrow>
      (\<exists>r \<in> set df. x r = x row \<and> y r = y row \<and> date r = date row)) \<and>
   keep_row_if_in_df df row_original row_probe =
      (if (\<exists>r \<in> set df. x r = x row_probe \<and> y r = y row_probe \<and> date r = date row_probe)
       then Some row_original else None)"
  by (auto simp: keep_row_if_in_df_def row_in_df_set row_eq_iff)

theorem row_matcher_exact_witness:
  "row_in_df \<lparr>x = 100, y = 90, date = ''A''\<rparr>
        [\<lparr>x = 80, y = 95, date = ''B''\<rparr>, \<lparr>x = 100, y = 90, date = ''A''\<rparr>] \<and>
   \<not> row_in_df \<lparr>x = 100, y = 91, date = ''A''\<rparr>
        [\<lparr>x = 80, y = 95, date = ''B''\<rparr>, \<lparr>x = 100, y = 90, date = ''A''\<rparr>] \<and>
   keep_row_if_in_df [\<lparr>x = 80, y = 95, date = ''B''\<rparr>, \<lparr>x = 100, y = 90, date = ''A''\<rparr>]
        (100 :: int, 90 :: int, ''A'', 31 :: int) \<lparr>x = 100, y = 90, date = ''A''\<rparr>
      = Some (100, 90, ''A'', 31) \<and>
   keep_row_if_in_df [\<lparr>x = 80, y = 95, date = ''B''\<rparr>]
        (100 :: int, 90 :: int, ''A'', 31 :: int) \<lparr>x = 100, y = 90, date = ''A''\<rparr>
      = None"
  using row_matcher_exact [of "\<lparr>x = 100, y = 90, date = ''A''\<rparr>"
          "[\<lparr>x = 80, y = 95, date = ''B''\<rparr>, \<lparr>x = 100, y = 90, date = ''A''\<rparr>]"
          "(100 :: int, 90 :: int, ''A'', 31 :: int)" "\<lparr>x = 100, y = 90, date = ''A''\<rparr>"]
        row_matcher_exact [of "\<lparr>x = 100, y = 91, date = ''A''\<rparr>"
          "[\<lparr>x = 80, y = 95, date = ''B''\<rparr>, \<lparr>x = 100, y = 90, date = ''A''\<rparr>]"
          "(100 :: int, 90 :: int, ''A'', 31 :: int)" "\<lparr>x = 100, y = 90, date = ''A''\<rparr>"]
        row_matcher_exact [of "\<lparr>x = 100, y = 90, date = ''A''\<rparr>"
          "[\<lparr>x = 80, y = 95, date = ''B''\<rparr>]"
          "(100 :: int, 90 :: int, ''A'', 31 :: int)" "\<lparr>x = 100, y = 90, date = ''A''\<rparr>"]
  by simp

section \<open>Properties of the participation classifier\<close>

lemma in_dfs_to_color_map:
  "in_dfs_to_color df dfs_compare player_colors both_color neutral_color neutral_ecolor =
     map (\<lambda>r. let c = dict_colors player_colors both_color neutral_color
                         (row_in_df r (fst dfs_compare), row_in_df r (snd dfs_compare))
               in set_colors r c (if c \<noteq> neutral_color then c else neutral_ecolor)) df"
  by (simp add: in_dfs_to_color_def Let_def zip_map2 zip_map1 zip_same_conv_map o_def split_def)

lemma category_flags_unique: "\<exists>!cat. category_flags cat = (a, b)"
proof (cases a; cases b)
  show "\<exists>!cat. category_flags cat = (a, b)" if "a" "b"
    using that by (intro ex1I [of _ Both]) (auto elim: category_flags.elims)
  show "\<exists>!cat. category_flags cat = (a, b)" if "a" "\<not> b"
    using that by (intro ex1I [of _ Player1Only]) (auto elim: category_flags.elims)
  show "\<exists>!cat. category_flags cat = (a, b)" if "\<not> a" "b"
    using that by (intro ex1I [of _ Player2Only]) (auto elim: category_flags.elims)
  show "\<exists>!cat. category_flags cat = (a, b)" if "\<not> a" "\<not> b"
    using that by (intro ex1I [of _ Neither]) (auto elim: category_flags.elims)
qed

lemma dict_colors_category:
  "category_flags cat = flags \<Longrightarrow>
   dict_colors player_colors both_color neutral_color flags =
   category_color player_colors both_color neutral_color cat"
  by (cases cat) auto

text \<open>
  C3: the classifier keeps every row of the team table and gives the row at each
  position the colour of the one category whose flags are
  \<open>(row_in_df r P1, row_in_df r P2)\<close>: neutral_color for (False, False), the first
  player colour for (True, False), the second for (False, True), both_color for
  (True, True). Exactly one category has these flags. The edge colour is the colour,
  except that a colour equal to neutral_color gets neutral_ecolor.
\<close>

theorem classifier_fixed_lookup:
  "length (in_dfs_to_color T (P1, P2) (c1, c2) both_color neutral_color neutral_ecolor)
     = length T \<and>
   (\<forall>i < length T.
      let r = T ! i;
          out = in_dfs_to_color T (P1, P2) (c1, c2) both_color neutral_color neutral_ecolor ! i;
          flags = (row_in_df r P1, row_in_df r P2)
      in x out = x r \<and> y out = y r \<and> date out = date r \<and>
         (\<exists>!cat. category_flags cat = flags) \<and>
         (\<forall>cat. category_flags cat = flags \<longrightarrow>
            color out = category_color (c1, c2) both_color neutral_color cat) \<and>
         color out = (if flags = (False, False) then neutral_color
                      else if flags = (True, False) then c1
                      else if flags = (False, True) then c2 else both_color) \<and>
         ecolor out = (if color out = neutral_color then neutral_ecolor else color out))"
proof -
  let ?out = "in_dfs_to_color T (P1, P2) (c1, c2) both_color neutral_color neutral_ecolor"
  have len: "length ?out = length T"
    by (simp add: in_dfs_to_color_map)
  have row: "x (?out ! i) = x (T ! i) \<and> y (?out ! i) = y (T ! i) \<and>
      date (?out ! i) = date (T ! i) \<and>
      (\<exists>!cat. category_flags cat = (row_in_df (T ! i) P1, row_in_df (T ! i) P2)) \<and>
      (\<forall>cat. category_flags cat = (row_in_df (T ! i) P1, row_in_df (T ! i) P2) \<longrightarrow>
         color (?out ! i) = category_color (c1, c2) both_color neutral_color cat) \<and>
      color (?out ! i) =
        (if (row_in_df (T ! i) P1, row_in_df (T ! i) P2) = (False, False) then neutral_color
         else if (row_in_df (T ! i) P1, row_in_df (T ! i) P2) = (True, False) then c1
         else if (row_in_df (T ! i) P1, row_in_df (T ! i) P2) = (False, True) then c2
         else both_color) \<and>
      ecolor (?out ! i) =
        (if color (?out ! i) = neutral_color then neutral_ecolor else color (?out ! i))"
    if "i < length T" for i
  proof -
    let ?flags = "(row_in_df (T ! i) P1, row_in_df (T ! i) P2)"
    let ?c = "dict_colors (c1, c2) both_color neutral_color ?flags"
    have out: "?out ! i = set_colors (T ! i) ?c (if ?c \<noteq> neutral_color then ?c else neutral_ecolor)"
      using that by (simp add: in_dfs_to_color_map Let_def)
    have uniq: "\<exists>!cat. category_flags cat = ?flags"
      by (rule category_flags_unique)
    have cat: "\<forall>cat. category_flags cat = ?flags \<longrightarrow>
        ?c = category_color (c1, c2) both_color neutral_color cat"
      by (simp add: dict_colors_category)
    have tab: "?c = (if ?flags = (False, False) then neutral_color
         else if ?flags = (True, False) then c1
         else if ?flags = (False, True) then c2 else both_color)"
      by (cases "row_in_df (T ! i) P1"; cases "row_in_df (T ! i) P2") simp_all
    have col: "color (?out ! i) = ?c"
      by (simp add: out set_colors_def)
    have ecol: "ecolor (?out ! i) = (if ?c = neutral_color then neutral_ecolor else ?c)"
      by (simp add: out set_colors_def)
    have xyd: "x (?out ! i) = x (T ! i) \<and> y (?out ! i) = y (T ! i) \<and>
        date (?out ! i) = date (T ! i)"
      by (simp add: out set_colors_def)
    show ?thesis
      unfolding col using xyd uniq cat tab ecol unfolding col by blast
  qed
  show ?thesis
    unfolding Let_def using len row by blast
qed

theorem classifier_fixed_lookup_witness:
  "in_dfs_to_color [\<lparr>x = 100, y = 90, date = ''A''\<rparr>, \<lparr>x = 80, y = 95, date = ''B''\<rparr>]
      ([\<lparr>x = 100, y = 90, date = ''A''\<rparr>], [\<lparr>x = 80, y = 95, date = ''B''\<rparr>])
      (''red'', ''blue'') ''both'' ''grey'' ''edge'' ! 0
     = \<lparr>x = 100, y = 90, date = ''A'', color = ''red'', ecolor = ''red''\<rparr> \<and>
   color (in_dfs_to_color [\<lparr>x = 100, y = 90, date = ''A''\<rparr>, \<lparr>x = 80, y = 95, date = ''B''\<rparr>]
      ([\<lparr>x = 100, y = 90, date = ''A''\<rparr>], [\<lparr>x = 80, y = 95, date = ''B''\<rparr>])
      (''red'', ''blue'') ''both'' ''grey'' ''edge'' ! 1) = ''blue''"
proof -
  let ?T = "[\<lparr>x = 100, y = 90, date = ''A''\<rparr>, \<lparr>x = 80, y = 95, date = ''B''\<rparr>]"
  let ?P1 = "[\<lparr>x = 100, y = 90, date = ''A''\<rparr>]"
  let ?P2 = "[\<lparr>x = 80, y = 95, date = ''B''\<rparr>]"
  let ?out = "in_dfs_to_color ?T (?P1, ?P2) (''red'', ''blue'') ''both'' ''grey'' ''edge''"
  note main = classifier_fixed_lookup [of ?T ?P1 ?P2 "''red''" "''blue''" "''both''"
      "''grey''" "''edge''"]
  have in1: "row_in_df (?T ! 0) ?P1" "\<not> row_in_df (?T ! 0) ?P2"
            "\<not> row_in_df (?T ! 1) ?P1" "row_in_df (?T ! 1) ?P2"
    by (simp_all add: row_in_df_set)
  from main have all: "\<forall>i<2. x (?out ! i) = x (?T ! i) \<and> y (?out ! i) = y (?T ! i) \<and>
      date (?out ! i) = date (?T ! i) \<and>
      color (?out ! i) = (if (row_in_df (?T ! i) ?P1, row_in_df (?T ! i) ?P2) = (False, False)
            then ''grey''
          else if (row_in_df (?T ! i) ?P1, row_in_df (?T ! i) ?P2) = (True, False) then ''red''
          else if (row_in_df (?T ! i) ?P1, row_in_df (?T ! i) ?P2) = (False, True) then ''blue''
          else ''both'') \<and>
      ecolor (?out ! i) = (if color (?out ! i) = ''grey'' then ''edge'' else color (?out ! i))"
    unfolding Let_def by simp
  have r0: "x (?out ! 0) = 100 \<and> y (?out ! 0) = 90 \<and> date (?out ! 0) = ''A'' \<and>
      color (?out ! 0) = ''red'' \<and> ecolor (?out ! 0) = ''red''"
    using all [rule_format, of 0] in1 by simp
  have r1: "color (?out ! 1) = ''blue''"
    using all [rule_format, of 1] in1 by simp
  from r0 have "?out ! 0 = \<lparr>x = 100, y = 90, date = ''A'', color = ''red'', ecolor = ''red''\<rparr>"
    by (cases "?out ! 0") simp
  with r1 show ?thesis
    by blast
qed

text \<open>
  C10: no row is found in a table without rows, so with two empty player tables every
  row of the team table gets neutral_color as colour and neutral_ecolor as edge colour.
\<close>

theorem empty_player_tables_neither:
  "row_in_df row [] = False \<and>
   in_dfs_to_color T ([], []) player_colors both_color neutral_color neutral_ecolor =
     map (\<lambda>r. \<lparr>x = x r, y = y r, date = date r,
               color = neutral_color, ecolor = neutral_ecolor\<rparr>) T"
  by (simp add: in_dfs_to_color_map row_in_df_set set_colors_def)

section \<open>Properties of the category splitter and the win ratio\<close>

lemma select_rows_filter: "select_rows df (map P df) = filter P df"
  by (induction df) (simp_all add: select_rows_def)

lemma select_rows_enumerate:
  "select_rows (enumerate k (map f df)) (map Q df) =
     map (\<lambda>(l, r). (l, f r)) (filter (\<lambda>(l, r). Q r) (enumerate k df))"
  by (induction df arbitrary: k) (simp_all add: select_rows_def)

lemma map_snd_filter_enumerate:
  "map snd (filter (\<lambda>(l, r). Q r) (enumerate k df)) = filter Q df"
  by (induction df arbitrary: k) simp_all

lemma map_of_enumerate_const:
  "map_of (enumerate k (map (\<lambda>c. v) cs)) l =
     (if k \<le> l \<and> l < k + length cs then Some v else None)"
  by (induction cs arbitrary: k) auto

lemma assign_column_aligned:
  assumes "frame \<noteq> [] \<or> cs = []"
    and "\<forall>(l, r) \<in> set frame. l < length cs"
  shows "assign_column put frame (enumerate 0 (map (\<lambda>c. v) cs)) =
     map (\<lambda>(l, r). (l, put (Some v) r)) frame"
proof -
  have "\<not> (frame = [] \<and> enumerate 0 (map (\<lambda>c. v) cs) \<noteq> [])"
    using assms(1) by auto
  then have "assign_column put frame (enumerate 0 (map (\<lambda>c. v) cs)) =
      map (\<lambda>(l, r). (l, put (map_of (enumerate 0 (map (\<lambda>c. v) cs)) l) r)) frame"
    by (simp add: assign_column_def)
  also have "\<dots> = map (\<lambda>(l, r). (l, put (Some v) r)) frame"
    using assms(2) by (intro map_cong refl) (auto simp: map_of_enumerate_const)
  finally show ?thesis .
qed

lemma map_labels_enumerate:
  "map (\<lambda>(l, v). g l) (enumerate k cs) = map g [k..<k + length cs]"
proof -
  have "map (\<lambda>(l, v). g l) (enumerate k cs) = map (g \<circ> fst) (enumerate k cs)"
    by (simp add: split_def o_def)
  also have "\<dots> = map g (map fst (enumerate k cs))"
    by (simp only: map_map)
  also have "\<dots> = map g [k..<k + length cs]"
    by (simp only: map_fst_enumerate)
  finally show ?thesis .
qed

lemma assign_column_enlarged:
  assumes "cs \<noteq> []"
  shows "assign_column put [] (enumerate 0 (map (\<lambda>c. v) cs)) =
     map (\<lambda>l. (l, put (Some v) nan_row)) [0..<length cs]"
proof -
  have ne: "enumerate 0 (map (\<lambda>c. v) cs) \<noteq> []"
    using assms by (cases cs) simp_all
  have "assign_column put [] (enumerate 0 (map (\<lambda>c. v) cs)) =
      map (\<lambda>(l, r). (l, put (map_of (enumerate 0 (map (\<lambda>c. v) cs)) l) r))
        (map (\<lambda>(l, v). (l, nan_row)) (enumerate 0 (map (\<lambda>c. v) cs)))"
    using ne by (simp add: assign_column_def)
  also have "\<dots> = map (\<lambda>l. (l, put (map_of (enumerate 0 (map (\<lambda>c. v) cs)) l) nan_row))
      [0..<length cs]"
    using map_labels_enumerate
      [of "\<lambda>l. (l, put (map_of (enumerate 0 (map (\<lambda>c. v) cs)) l) nan_row)" 0
          "map (\<lambda>c. v) cs"]
    by (simp add: o_def split_def)
  also have "\<dots> = map (\<lambda>l. (l, put (Some v) nan_row)) [0..<length cs]"
    by (intro map_cong refl) (simp add: map_of_enumerate_const)
  finally show ?thesis .
qed

lemma cells_of_grey:
  "cells_of (r\<lparr>color := n, ecolor := n\<rparr>) =
     (cells_of r)\<lparr>cell_color := Some n, cell_ecolor := Some n\<rparr>"
  by (simp add: cells_of_def)

lemma get_plotting_dfs_eq:
  "get_plotting_dfs df c n =
     (if filter (\<lambda>r. color r \<noteq> c) df = [] \<and> df \<noteq> []
      then map (\<lambda>r. nan_row\<lparr>cell_color := Some n, cell_ecolor := Some n\<rparr>) df
      else map (\<lambda>r. cells_of (r\<lparr>color := n, ecolor := n\<rparr>))
             (filter (\<lambda>r. color r \<noteq> c) df),
      filter (\<lambda>r. color r = c) df)"
proof -
  let ?F = "map (\<lambda>(l, r). (l, cells_of r)) (filter (\<lambda>(l, r). color r \<noteq> c) (enumerate 0 df))"
  let ?s1 = "enumerate 0 (map (\<lambda>c. n) (map color df))"
  let ?s2 = "enumerate 0 (map (\<lambda>c. n) (map ecolor df))"
  let ?put1 = "\<lambda>v (r :: cell_row). r\<lparr>cell_color := v\<rparr>"
  let ?put2 = "\<lambda>v (r :: cell_row). r\<lparr>cell_ecolor := v\<rparr>"
  have frame: "select_rows (enumerate 0 (map cells_of df))
      (map Not (map (\<lambda>r. color r = c) df)) = ?F"
    using select_rows_enumerate [of 0 cells_of df "\<lambda>r. color r \<noteq> c"]
    by (simp add: o_def)
  have "map snd ?F =
      map cells_of (map snd (filter (\<lambda>(l, r). color r \<noteq> c) (enumerate 0 df)))"
    by (simp add: o_def split_def)
  then have snd_F: "map snd ?F = map cells_of (filter (\<lambda>r. color r \<noteq> c) df)"
    by (simp only: map_snd_filter_enumerate)
  have F_empty: "?F = [] \<longleftrightarrow> filter (\<lambda>r. color r \<noteq> c) df = []"
    using snd_F by (metis map_is_Nil_conv)
  have labels: "\<forall>(l, r) \<in> set ?F. l < length df"
    by (auto simp: in_set_enumerate_eq)
  have yes: "select_rows df (map (\<lambda>r. color r = c) df) = filter (\<lambda>r. color r = c) df"
    by (rule select_rows_filter)
  have out: "get_plotting_dfs df c n =
      (map snd (assign_column ?put2 (assign_column ?put1 ?F ?s1) ?s2),
       filter (\<lambda>r. color r = c) df)"
    unfolding get_plotting_dfs_def Let_def frame yes ..
  show ?thesis
  proof (cases "filter (\<lambda>r. color r \<noteq> c) df = [] \<and> df \<noteq> []")
    case True
    then have F: "?F = []" and ne: "map color df \<noteq> []" "map ecolor df \<noteq> []"
      using F_empty by simp_all
    have a1: "assign_column ?put1 [] ?s1 =
        map (\<lambda>l. (l, nan_row\<lparr>cell_color := Some n\<rparr>)) [0..<length df]"
      using assign_column_enlarged [OF ne(1), of ?put1 n] by simp
    have "assign_column ?put2 (map (\<lambda>l. (l, nan_row\<lparr>cell_color := Some n\<rparr>)) [0..<length df]) ?s2 =
        map (\<lambda>(l, r). (l, r\<lparr>cell_ecolor := Some n\<rparr>))
          (map (\<lambda>l. (l, nan_row\<lparr>cell_color := Some n\<rparr>)) [0..<length df])"
      using True by (intro assign_column_aligned) auto
    then have "map snd (assign_column ?put2 (assign_column ?put1 ?F ?s1) ?s2) =
        map (\<lambda>l. nan_row\<lparr>cell_color := Some n, cell_ecolor := Some n\<rparr>) [0..<length df]"
      unfolding F a1 by (simp add: o_def)
    also have "\<dots> = map (\<lambda>r. nan_row\<lparr>cell_color := Some n, cell_ecolor := Some n\<rparr>) df"
      by (simp add: map_replicate_const)
    finally show ?thesis
      unfolding out using True by simp
  next
    case False
    then have side: "?F \<noteq> [] \<or> map color df = []"
      using F_empty by auto
    have a1: "assign_column ?put1 ?F ?s1 = map (\<lambda>(l, r). (l, r\<lparr>cell_color := Some n\<rparr>)) ?F"
      using side labels by (intro assign_column_aligned) simp_all
    have side2: "map (\<lambda>(l, r). (l, r\<lparr>cell_color := Some n\<rparr>)) ?F \<noteq> [] \<or> map ecolor df = []"
      using side by auto
    have labels2: "\<forall>(l, r) \<in> set (map (\<lambda>(l, r). (l, r\<lparr>cell_color := Some n\<rparr>)) ?F).
        l < length (map ecolor df)"
      using labels by auto
    have a2: "assign_column ?put2 (map (\<lambda>(l, r). (l, r\<lparr>cell_color := Some n\<rparr>)) ?F) ?s2 =
        map (\<lambda>(l, r). (l, r\<lparr>cell_ecolor := Some n\<rparr>))
          (map (\<lambda>(l, r). (l, r\<lparr>cell_color := Some n\<rparr>)) ?F)"
      using side2 labels2 by (rule assign_column_aligned)
    have "map snd (assign_column ?put2 (assign_column ?put1 ?F ?s1) ?s2) =
        map (\<lambda>r. r\<lparr>cell_color := Some n, cell_ecolor := Some n\<rparr>) (map snd ?F)"
      unfolding a1 a2 by (simp add: o_def split_def)
    also have "\<dots> = map (\<lambda>r. cells_of (r\<lparr>color := n, ecolor := n\<rparr>))
        (filter (\<lambda>r. color r \<noteq> c) df)"
      unfolding snd_F by (simp add: cells_of_grey o_def)
    finally show ?thesis
      unfolding out using False by auto
  qed
qed

text \<open>
  Where some row has another colour than the requested one, or the dataset has no rows,
  the two frames split the rows of the dataset: highlighted is the rows of the requested
  colour, unchanged; greyed is the other rows with both colours set to neutral_color;
  they come from complementary sets of row positions.
\<close>

lemma plotting_dfs_partition_law:
  assumes "(\<exists>r \<in> set df. color r \<noteq> c) \<or> df = []"
  shows "snd (get_plotting_dfs df c n) = filter (\<lambda>r. color r = c) df \<and>
   fst (get_plotting_dfs df c n) =
     map (\<lambda>r. cells_of (r\<lparr>color := n, ecolor := n\<rparr>)) (filter (\<lambda>r. color r \<noteq> c) df) \<and>
   length (fst (get_plotting_dfs df c n)) + length (snd (get_plotting_dfs df c n)) = length df \<and>
   (\<exists>I J. I \<inter> J = {} \<and> I \<union> J = {..<length df} \<and>
      I = {i. i < length df \<and> color (df ! i) = c} \<and>
      snd (get_plotting_dfs df c n) = nths df I \<and>
      fst (get_plotting_dfs df c n) =
        map (\<lambda>r. cells_of (r\<lparr>color := n, ecolor := n\<rparr>)) (nths df J))"
proof -
  let ?I = "{i. i < length df \<and> color (df ! i) = c}"
  let ?J = "{i. i < length df \<and> color (df ! i) \<noteq> c}"
  let ?grey = "\<lambda>r. cells_of (r\<lparr>color := n, ecolor := n\<rparr>)"
  from assms have "\<not> (filter (\<lambda>r. color r \<noteq> c) df = [] \<and> df \<noteq> [])"
    by (auto simp: filter_empty_conv)
  then have eq: "get_plotting_dfs df c n =
      (map ?grey (filter (\<lambda>r. color r \<noteq> c) df), filter (\<lambda>r. color r = c) df)"
    unfolding get_plotting_dfs_eq by (simp only: if_False)
  have "?I \<inter> ?J = {}" "?I \<union> ?J = {..<length df}"
    by auto
  moreover have "filter (\<lambda>r. color r = c) df = nths df ?I"
    "filter (\<lambda>r. color r \<noteq> c) df = nths df ?J"
    by (rule filter_eq_nths)+
  moreover have "length (filter (\<lambda>r. color r \<noteq> c) df) +
      length (filter (\<lambda>r. color r = c) df) = length df"
    using sum_length_filter_compl [of "\<lambda>r. color r = c" df] by simp
  ultimately show ?thesis
    unfolding eq fst_conv snd_conv length_map
    by (intro conjI exI [of _ ?I] exI [of _ ?J]) (rule refl | assumption | simp only:)+
qed

text \<open>
  Where the dataset has rows and all of them have the requested colour, the greyed frame
  is not empty: it has one row per row of the dataset, with missing coordinates and date
  and both colours neutral_color, so the two frames have twice the rows of the dataset.
\<close>

lemma plotting_dfs_enlarged:
  assumes "df \<noteq> []" "\<forall>r \<in> set df. color r = c"
  shows "snd (get_plotting_dfs df c n) = df \<and>
   fst (get_plotting_dfs df c n) =
     map (\<lambda>r. nan_row\<lparr>cell_color := Some n, cell_ecolor := Some n\<rparr>) df \<and>
   length (fst (get_plotting_dfs df c n)) + length (snd (get_plotting_dfs df c n)) =
     2 * length df"
proof -
  from assms(2) have none: "filter (\<lambda>r. color r \<noteq> c) df = []"
    and all: "filter (\<lambda>r. color r = c) df = df"
    by (simp_all add: filter_empty_conv filter_id_conv)
  have "get_plotting_dfs df c n =
      (map (\<lambda>r. nan_row\<lparr>cell_color := Some n, cell_ecolor := Some n\<rparr>) df, df)"
    unfolding get_plotting_dfs_eq none all using assms(1) by simp
  then show ?thesis
    by simp
qed

text \<open>
  C6: the partition law of \<open>get_plotting_dfs\<close> (highlighted and greyed are disjoint, cover
  the dataset, and their row counts add up to its row count) fails on a dataset whose
  rows all have the requested colour. For two games of colour "both" and the request
  "both", highlighted is the two games and greyed is two more rows, with missing
  coordinates and date and both colours "grey": four rows from a dataset of two.
\<close>

theorem plotting_dfs_all_rows_requested:
  "get_plotting_dfs
      [\<lparr>x = 90, y = 100, date = ''A'', color = ''both'', ecolor = ''both''\<rparr>,
       \<lparr>x = 80, y = 95, date = ''B'', color = ''both'', ecolor = ''both''\<rparr>]
      ''both'' ''grey'' =
     ([\<lparr>cell_x = None, cell_y = None, cell_date = None,
        cell_color = Some ''grey'', cell_ecolor = Some ''grey''\<rparr>,
       \<lparr>cell_x = None, cell_y = None, cell_date = None,
        cell_color = Some ''grey'', cell_ecolor = Some ''grey''\<rparr>],
      [\<lparr>x = 90, y = 100, date = ''A'', color = ''both'', ecolor = ''both''\<rparr>,
       \<lparr>x = 80, y = 95, date = ''B'', color = ''both'', ecolor = ''both''\<rparr>]) \<and>
   length (fst (get_plotting_dfs
      [\<lparr>x = 90, y = 100, date = ''A'', color = ''both'', ecolor = ''both''\<rparr>,
       \<lparr>x = 80, y = 95, date = ''B'', color = ''both'', ecolor = ''both''\<rparr>]
      ''both'' ''grey'')) +
   length (snd (get_plotting_dfs
      [\<lparr>x = 90, y = 100, date = ''A'', color = ''both'', ecolor = ''both''\<rparr>,
       \<lparr>x = 80, y = 95, date = ''B'', color = ''both'', ecolor = ''both''\<rparr>]
      ''both'' ''grey'')) = 4"
  by (simp add: get_plotting_dfs_def select_rows_def assign_column_def nan_row_def
      cells_of_def enumerate_eq_zip Let_def)

text \<open>
  C4: the win ratio of a table with rows is the number of rows with \<open>x < y\<close>, divided
  by the number of rows, times 100, rounded to the given precision (each a floating-point
  operation of Python); the win ratio of the table without rows is the integer 0, which
  is neither an exception nor a float.
\<close>

theorem wins_percentage_formula:
  "get_wins_percentage ops df precision =
     (if length df = 0 then Inr (PyInt 0)
      else Inr (PyFloat (round_ndigits ops
             (mul_int ops (truediv ops (int (length (filter (\<lambda>r. x r < y r) df)))
                                       (int (length df))) 100) precision)))"
  by (simp add: get_wins_percentage_def py_truediv_def select_rows_filter)

theorem wins_percentage_formula_witness:
  "get_wins_percentage
      \<lparr>truediv = (\<lambda>a b. of_int a / of_int b), mul_int = (\<lambda>q i. q * of_int i),
       round_ndigits = (\<lambda>q n. of_int (round (q * 10 ^ nat n)) / 10 ^ nat n)\<rparr>
      [\<lparr>x = 100, y = 90, date = ''A''\<rparr>, \<lparr>x = 80, y = 95, date = ''B''\<rparr>] 2
     = Inr (PyFloat 50) \<and>
   get_wins_percentage
      \<lparr>truediv = (\<lambda>a b. of_int a / of_int b), mul_int = (\<lambda>q i. q * of_int i),
       round_ndigits = (\<lambda>q n. of_int (round (q * 10 ^ nat n)) / 10 ^ nat n)\<rparr>
      ([] :: game_row list) 2
     = Inr (PyInt 0)"
proof -
  show ?thesis
  using wins_percentage_formula [of
      "\<lparr>truediv = (\<lambda>a b. of_int a / of_int b), mul_int = (\<lambda>q i. q * of_int i),
        round_ndigits = (\<lambda>q n. of_int (round (q * 10 ^ nat n)) / 10 ^ nat n)\<rparr>"
      "[\<lparr>x = 100, y = 90, date = ''A''\<rparr>, \<lparr>x = 80, y = 95, date = ''B''\<rparr>]" 2]
    wins_percentage_formula [of
      "\<lparr>truediv = (\<lambda>a b. of_int a / of_int b), mul_int = (\<lambda>q i. q * of_int i),
        round_ndigits = (\<lambda>q n. of_int (round (q * 10 ^ nat n)) / 10 ^ nat n)\<rparr>"
      "[] :: game_row list" 2]
  by simp
qed

section \<open>Properties of the joint sort\<close>

lemma insert_sorted_insort:
  "num_val (fst a) \<notin> (\<lambda>r. num_val (fst r)) ` set bs \<Longrightarrow>
   insert_sorted tuple_lt a bs = Inr (insort_key (\<lambda>r. num_val (fst r)) a bs)"
  by (induction bs) (auto simp: tuple_lt_def)

lemma sort_from_fold:
  "distinct (map (\<lambda>r. num_val (fst r)) (acc @ todo)) \<Longrightarrow>
   sort_from tuple_lt acc todo = Inr (fold (insort_key (\<lambda>r. num_val (fst r))) todo acc)"
proof (induction todo arbitrary: acc)
  case Nil
  then show ?case by simp
next
  case (Cons a todo)
  let ?k = "\<lambda>r. num_val (fst r)"
  from Cons.prems have fresh: "?k a \<notin> ?k ` set acc"
    by auto
  from Cons.prems have "distinct (map ?k (insort_key ?k a acc @ todo))"
    by (auto simp: distinct_insort_key set_insort_key)
  from Cons.IH [OF this] fresh show ?case
    by (simp add: insert_sorted_insort)
qed

lemma sorted_py_reverse:
  assumes "distinct (map (\<lambda>r. num_val (fst r)) rows)"
  shows "sorted_py tuple_lt True rows = Inr (rev (sort_key (\<lambda>r. num_val (fst r)) (rev rows)))"
proof -
  let ?k = "\<lambda>r. num_val (fst r)"
  from assms have "distinct (map ?k ([] @ rev rows))"
    by (simp add: distinct_rev rev_map [symmetric])
  from sort_from_fold [OF this]
  have "sort_from tuple_lt [] (rev rows) = Inr (fold (insort_key ?k) (rev rows) [])" .
  moreover from assms have "inj_on ?k (set (rev rows))"
    by (simp add: distinct_map)
  then have "sort_key ?k (rev rows) = fold (insort_key ?k) (rev rows) []"
    by (rule sort_key_conv_fold)
  ultimately show ?thesis
    by (simp add: sorted_py_def)
qed

lemma mset_index_permutation:
  assumes "mset ys = mset xs"
  shows "\<exists>p. mset p = mset [0..<length xs] \<and> ys = map ((!) xs) p"
proof -
  from ex_mset_zip_left [of xs "[0..<length xs]" ys] assms
  obtain p where len: "length p = length ys"
    and zip: "mset (zip ys p) = mset (zip xs [0..<length xs])"
    by auto
  have "mset p = image_mset snd (mset (zip ys p))"
    using len by (simp flip: mset_map)
  also have "\<dots> = mset [0..<length xs]"
    unfolding zip by (simp flip: mset_map)
  finally have perm: "mset p = mset [0..<length xs]" .
  have "ys ! k = xs ! (p ! k)" if "k < length ys" for k
  proof -
    from that len have "(ys ! k, p ! k) \<in> set (zip ys p)"
      by (auto simp: set_zip)
    then have "(ys ! k, p ! k) \<in> set (zip xs [0..<length xs])"
      using zip by (metis mset_eq_setD)
    then show ?thesis
      by (auto simp: set_zip)
  qed
  then have "ys = map ((!) xs) p"
    using len by (intro nth_equalityI) simp_all
  with perm show ?thesis
    by blast
qed

lemma unzip_rows_nonempty:
  "rows \<noteq> [] \<Longrightarrow> unzip_rows rows =
     Columns (map fst rows) (map (fst \<circ> snd) rows)
             (map (fst \<circ> snd \<circ> snd) rows) (map (snd \<circ> snd \<circ> snd) rows)"
  by (cases rows) simp_all

lemma zip_rows_nth:
  assumes "i < length ratios" "i < length df_tuples" "i < length colors" "i < length text_ends"
  shows "zip_rows ratios df_tuples colors text_ends ! i =
     (ratios ! i, df_tuples ! i, colors ! i, text_ends ! i)"
  using assms by (simp add: zip_rows_def)

lemma descending_nth:
  fixes vs :: "'a::linorder list"
  assumes "sorted (rev vs)" "distinct vs" "i < j" "j < length vs"
  shows "vs ! j < vs ! i"
proof -
  have "vs ! j \<le> vs ! i"
    using assms sorted_rev_iff_nth_mono [of vs] by auto
  moreover have "vs ! j \<noteq> vs ! i"
    using assms nth_eq_iff_index_eq [of vs j i] by auto
  ultimately show ?thesis
    by simp
qed

text \<open>
  C5: with four pairwise distinct ratios, \<open>sort_as_one\<close> with \<open>reverse = True\<close>
  returns the four sequences rearranged by one permutation \<open>p\<close> of the positions, the
  ratios strictly descending: position 0 holds the highest ratio and position 3 the lowest.
\<close>

theorem joint_sort_descending:
  assumes len: "length ratios = 4" "length df_tuples = 4" "length colors = 4"
      "length text_ends = 4"
    and dist: "distinct (map num_val ratios)"
  shows "\<exists>rs ps cs ls p.
     sort_as_one ratios df_tuples colors text_ends True = Inr (Columns rs ps cs ls) \<and>
     mset p = mset [0..<4] \<and>
     rs = map ((!) ratios) p \<and> ps = map ((!) df_tuples) p \<and>
     cs = map ((!) colors) p \<and> ls = map ((!) text_ends) p \<and>
     (\<forall>i j. i < j \<and> j < 4 \<longrightarrow> num_val (rs ! j) < num_val (rs ! i)) \<and>
     (\<forall>r \<in> set ratios. num_val r \<le> num_val (rs ! 0) \<and> num_val (rs ! 3) \<le> num_val r)"
proof -
  let ?k = "\<lambda>r::sort_row. num_val (fst r)"
  let ?rows = "zip_rows ratios df_tuples colors text_ends"
  let ?out = "rev (sort_key ?k (rev ?rows))"
  have keys: "map ?k ?rows = map num_val ratios"
    using len by (simp add: zip_rows_def map_fst_zip flip: map_map [unfolded o_def])
  have len_rows: "length ?rows = 4"
    using len by (simp add: zip_rows_def)
  have sorted: "sorted_py tuple_lt True ?rows = Inr ?out"
    using dist by (intro sorted_py_reverse) (simp add: keys)
  have "mset ?out = mset ?rows"
    by simp
  from mset_index_permutation [OF this] obtain p
    where p: "mset p = mset [0..<4]" and out: "?out = map ((!) ?rows) p"
    using len_rows by auto
  from p have p_lt: "i < 4" if "i \<in> set p" for i
    using that mset_eq_setD [OF p] by auto
  have len_out: "length ?out = 4"
    using len_rows by simp
  then have "?out \<noteq> []"
    by (metis list.size(3) zero_neq_numeral)
  then have cols: "sort_as_one ratios df_tuples colors text_ends True =
      Inr (Columns (map fst ?out) (map (fst \<circ> snd) ?out)
             (map (fst \<circ> snd \<circ> snd) ?out) (map (snd \<circ> snd \<circ> snd) ?out))"
    unfolding sort_as_one_def sorted by (simp add: unzip_rows_nonempty)
  have c1: "map fst ?out = map ((!) ratios) p"
    unfolding out using p_lt len by (simp add: zip_rows_nth)
  have c2: "map (fst \<circ> snd) ?out = map ((!) df_tuples) p"
    unfolding out using p_lt len by (simp add: zip_rows_nth)
  have c3: "map (fst \<circ> snd \<circ> snd) ?out = map ((!) colors) p"
    unfolding out using p_lt len by (simp add: zip_rows_nth)
  have c4: "map (snd \<circ> snd \<circ> snd) ?out = map ((!) text_ends) p"
    unfolding out using p_lt len by (simp add: zip_rows_nth)
  let ?vs = "map ?k ?out"
  have len_vs: "length ?vs = 4"
    using len_out by simp
  have "sorted (rev ?vs)"
    by (simp add: rev_map)
  then have mono: "?vs ! j \<le> ?vs ! i" if "i \<le> j" "j < 4" for i j
    using that len_vs sorted_rev_iff_nth_mono [of ?vs] by auto
  have "mset ?vs = mset (map ?k ?rows)"
    by simp
  then have mset_vs: "mset ?vs = mset (map num_val ratios)"
    by (simp only: keys)
  have dist_vs: "distinct ?vs"
    using mset_eq_imp_distinct_iff [OF mset_vs] dist by (rule iffD2)
  have set_vs: "set ?vs = set (map num_val ratios)"
    by (rule mset_eq_setD [OF mset_vs])
  have strict: "?vs ! j < ?vs ! i" if "i < j" "j < 4" for i j
    using descending_nth [OF \<open>sorted (rev ?vs)\<close> dist_vs, of i j] that len_vs
    by (simp only:)
  have vs_nth: "?vs ! i = num_val (map fst ?out ! i)" if "i < 4" for i
    using that len_out by simp
  have desc: "\<forall>i j. i < j \<and> j < 4 \<longrightarrow>
      num_val (map fst ?out ! j) < num_val (map fst ?out ! i)"
  proof (intro allI impI)
    fix i j :: nat
    assume "i < j \<and> j < 4"
    then have ij: "i < j" "j < 4" "i < 4"
      by auto
    from strict [OF ij(1,2)] show "num_val (map fst ?out ! j) < num_val (map fst ?out ! i)"
      by (simp only: vs_nth [OF ij(2)] vs_nth [OF ij(3)])
  qed
  have ext: "\<forall>r \<in> set ratios. num_val r \<le> num_val (map fst ?out ! 0) \<and>
      num_val (map fst ?out ! 3) \<le> num_val r"
  proof
    fix r assume "r \<in> set ratios"
    then have "num_val r \<in> set ?vs"
      unfolding set_vs by simp
    then obtain m where m: "m < 4" "?vs ! m = num_val r"
      using len_vs by (metis in_set_conv_nth)
    from mono [of 0 m] mono [of m 3] m
    have "num_val r \<le> ?vs ! 0 \<and> ?vs ! 3 \<le> num_val r"
      by simp
    then show "num_val r \<le> num_val (map fst ?out ! 0) \<and>
        num_val (map fst ?out ! 3) \<le> num_val r"
      using vs_nth [of 0] vs_nth [of 3] by simp
  qed
  show ?thesis
    using cols p desc ext unfolding c1 c2 c3 c4 by blast
qed

theorem joint_sort_descending_witness:
  "sort_as_one [PyFloat 10, PyFloat 90, PyFloat 50, PyFloat 30]
      [([], []),
       ([], [\<lparr>x = 1, y = 2, date = ''A'', color = ''b'', ecolor = ''b''\<rparr>]),
       ([], [\<lparr>x = 1, y = 2, date = ''A'', color = ''c'', ecolor = ''c''\<rparr>]),
       ([], [\<lparr>x = 3, y = 2, date = ''B'', color = ''d'', ecolor = ''d''\<rparr>])]
      [''a'', ''b'', ''c'', ''d''] [''la'', ''lb'', ''lc'', ''ld''] True =
   Inr (Columns [PyFloat 90, PyFloat 50, PyFloat 30, PyFloat 10]
      [([], [\<lparr>x = 1, y = 2, date = ''A'', color = ''b'', ecolor = ''b''\<rparr>]),
       ([], [\<lparr>x = 1, y = 2, date = ''A'', color = ''c'', ecolor = ''c''\<rparr>]),
       ([], [\<lparr>x = 3, y = 2, date = ''B'', color = ''d'', ecolor = ''d''\<rparr>]),
       ([], [])]
      [''b'', ''c'', ''d'', ''a''] [''lb'', ''lc'', ''ld'', ''la''])"
proof -
  let ?ratios = "[PyFloat 10, PyFloat 90, PyFloat 50, PyFloat 30]"
  let ?pairs = "[([], []),
       ([], [\<lparr>x = 1, y = 2, date = ''A'', color = ''b'', ecolor = ''b''\<rparr>]),
       ([], [\<lparr>x = 1, y = 2, date = ''A'', color = ''c'', ecolor = ''c''\<rparr>]),
       ([], [\<lparr>x = 3, y = 2, date = ''B'', color = ''d'', ecolor = ''d''\<rparr>])] :: frame_pair list"
  have h: "length ?ratios = 4" "length ?pairs = 4" "length [''a'', ''b'', ''c'', ''d''] = 4"
    "length [''la'', ''lb'', ''lc'', ''ld''] = 4" "distinct (map num_val ?ratios)"
    by simp_all
  note joint_sort_descending [OF h]
  then show ?thesis
    by (simp add: sort_as_one_def sorted_py_def zip_rows_def tuple_lt_def)
qed

text \<open>Two rows with the same ratio always end the sort with ValueError.\<close>

lemma insert_sorted_tie:
  "sorted (map (\<lambda>r. num_val (fst r)) acc) \<Longrightarrow>
   num_val (fst a) \<in> (\<lambda>r. num_val (fst r)) ` set acc \<Longrightarrow>
   insert_sorted tuple_lt a acc = Inl ValueError"
proof (induction acc)
  case Nil
  then show ?case by simp
next
  case (Cons b bs)
  show ?case
  proof (cases "num_val (fst a) = num_val (fst b)")
    case True
    then show ?thesis by (simp add: tuple_lt_def)
  next
    case False
    with Cons.prems have mem: "num_val (fst a) \<in> (\<lambda>r. num_val (fst r)) ` set bs"
      by auto
    with Cons.prems(1) have "num_val (fst b) \<le> num_val (fst a)"
      by auto
    with False have "\<not> num_val (fst a) < num_val (fst b)"
      by simp
    moreover from Cons.prems(1) have "sorted (map (\<lambda>r. num_val (fst r)) bs)"
      by simp
    ultimately show ?thesis
      using False Cons.IH mem by (simp add: tuple_lt_def)
  qed
qed

lemma sort_from_tie:
  "sorted (map (\<lambda>r. num_val (fst r)) acc) \<Longrightarrow>
   distinct (map (\<lambda>r. num_val (fst r)) acc) \<Longrightarrow>
   \<not> distinct (map (\<lambda>r. num_val (fst r)) (acc @ todo)) \<Longrightarrow>
   sort_from tuple_lt acc todo = Inl ValueError"
proof (induction todo arbitrary: acc)
  case Nil
  then show ?case by simp
next
  case (Cons a todo)
  let ?k = "\<lambda>r. num_val (fst r)"
  show ?case
  proof (cases "?k a \<in> ?k ` set acc")
    case True
    with Cons.prems(1) show ?thesis
      by (simp add: insert_sorted_tie)
  next
    case False
    then have ins: "insert_sorted tuple_lt a acc = Inr (insort_key ?k a acc)"
      by (rule insert_sorted_insort)
    have s: "sorted (map ?k (insort_key ?k a acc))"
      using Cons.prems(1) by (simp add: sorted_insort_key)
    have d: "distinct (map ?k (insort_key ?k a acc))"
      using Cons.prems(2) False by (simp add: distinct_insort_key)
    have "mset (map ?k (insort_key ?k a acc @ todo)) = mset (map ?k (acc @ a # todo))"
      by simp
    then have "distinct (map ?k (insort_key ?k a acc @ todo)) =
        distinct (map ?k (acc @ a # todo))"
      by (rule mset_eq_imp_distinct_iff)
    with Cons.prems(3) have n: "\<not> distinct (map ?k (insort_key ?k a acc @ todo))"
      by simp
    from Cons.IH [OF s d n] ins show ?thesis
      by simp
  qed
qed

lemma sorted_py_tie:
  assumes "\<not> distinct (map (\<lambda>r. num_val (fst r)) rows)"
  shows "sorted_py tuple_lt reverse rows = Inl ValueError"
proof -
  let ?k = "\<lambda>r. num_val (fst r)"
  have "distinct (map ?k (rev rows)) = distinct (map ?k rows)"
    by (simp only: rev_map [symmetric] distinct_rev)
  with assms have "\<not> distinct (map ?k ([] @ rev rows))" "\<not> distinct (map ?k ([] @ rows))"
    by simp_all
  then have "sort_from tuple_lt [] (rev rows) = Inl ValueError"
    "sort_from tuple_lt [] rows = Inl ValueError"
    by (simp_all add: sort_from_tie del: append_Nil)
  then show ?thesis
    by (simp add: sorted_py_def)
qed

lemma sort_as_one_tie:
  "\<not> distinct (map (\<lambda>r. num_val (fst r)) (zip_rows percentages df_tuples colors text_ends)) \<Longrightarrow>
   sort_as_one percentages df_tuples colors text_ends reverse = Inl ValueError"
  by (simp add: sort_as_one_def sorted_py_tie)

text \<open>
  C9: a classified dataset with one game of the first player's colour and one of the
  second player's, both won. The two categories have the same win ratio and different
  dataset pairs, and \<open>get_final_data\<close> ends with ValueError instead of an ordering,
  whatever the floating-point operations return.
\<close>

theorem joint_sort_fails_on_tie:
  "get_wins_percentage ops (select_rows
        [\<lparr>x = 90, y = 100, date = ''A'', color = ''red'', ecolor = ''red''\<rparr>,
         \<lparr>x = 80, y = 95, date = ''B'', color = ''blue'', ecolor = ''blue''\<rparr>]
        (map (\<lambda>r. color r = ''red'')
          [\<lparr>x = 90, y = 100, date = ''A'', color = ''red'', ecolor = ''red''\<rparr>,
           \<lparr>x = 80, y = 95, date = ''B'', color = ''blue'', ecolor = ''blue''\<rparr>])) 2 =
   get_wins_percentage ops (select_rows
        [\<lparr>x = 90, y = 100, date = ''A'', color = ''red'', ecolor = ''red''\<rparr>,
         \<lparr>x = 80, y = 95, date = ''B'', color = ''blue'', ecolor = ''blue''\<rparr>]
        (map (\<lambda>r. color r = ''blue'')
          [\<lparr>x = 90, y = 100, date = ''A'', color = ''red'', ecolor = ''red''\<rparr>,
           \<lparr>x = 80, y = 95, date = ''B'', color = ''blue'', ecolor = ''blue''\<rparr>])) 2 \<and>
   get_plotting_dfs
        [\<lparr>x = 90, y = 100, date = ''A'', color = ''red'', ecolor = ''red''\<rparr>,
         \<lparr>x = 80, y = 95, date = ''B'', color = ''blue'', ecolor = ''blue''\<rparr>]
        ''red'' ''grey'' \<noteq>
   get_plotting_dfs
        [\<lparr>x = 90, y = 100, date = ''A'', color = ''red'', ecolor = ''red''\<rparr>,
         \<lparr>x = 80, y = 95, date = ''B'', color = ''blue'', ecolor = ''blue''\<rparr>]
        ''blue'' ''grey'' \<and>
   get_final_data ops
        [\<lparr>x = 90, y = 100, date = ''A'', color = ''red'', ecolor = ''red''\<rparr>,
         \<lparr>x = 80, y = 95, date = ''B'', color = ''blue'', ecolor = ''blue''\<rparr>]
        [''red'', ''blue'', ''both'', ''none''] ''grey'' (''X'', ''Y'') = Inl ValueError"
  by (simp add: get_final_data_def get_wins_percentage_def py_truediv_def select_rows_def
      get_plotting_dfs_def assign_column_def nan_row_def cells_of_def enumerate_eq_zip
      sort_as_one_def sorted_py_def zip_rows_def tuple_lt_def Let_def)

section \<open>Properties of the coordinate normaliser\<close>




















lemma score_to_tuple_cases:
  "score_to_tuple s =
     (if \<exists>c \<in> set s. c \<notin> set ''0123456789-WLOT '' then None
      else Some (if CHR ''W'' \<in> set s
                 then take 2 (map int_of_digits (findall_digits s))
                 else rev (take 2 (map int_of_digits (findall_digits s)))))"
  by (simp add: score_to_tuple_def list_all_iff Let_def)

lemma if_None_iff: "((if P then None else Some v) = None) \<longleftrightarrow> P"
  by simp

lemma if_not_None: "\<not> P \<Longrightarrow> (if P then None else Some v) = Some v"
  by simp

text \<open>
  C2: \<open>score_to_tuple\<close> returns \<open>None\<close> exactly when the label has a character
  outside the digits, W, L, O, T, hyphen and space. Otherwise it returns the first two
  digit runs of the label as integers, from left to right when the label contains W and
  reversed when it does not. "W131-118" gives [131, 118], "L112-109" gives [109, 112],
  "garbage!!" gives \<open>None\<close>.
\<close>

theorem score_to_tuple_spec:
  "(score_to_tuple s = None \<longleftrightarrow> (\<exists>c \<in> set s. c \<notin> set ''0123456789-WLOT '')) \<and>
   ((\<forall>c \<in> set s. c \<in> set ''0123456789-WLOT '') \<longrightarrow>
      score_to_tuple s =
        Some (if CHR ''W'' \<in> set s
              then take 2 (map int_of_digits (findall_digits s))
              else rev (take 2 (map int_of_digits (findall_digits s))))) \<and>
   score_to_tuple ''W131-118'' = Some [131, 118] \<and>
   score_to_tuple ''L112-109'' = Some [109, 112] \<and>
   score_to_tuple ''garbage!!'' = None"
proof (intro conjI)
  show "score_to_tuple s = None \<longleftrightarrow> (\<exists>c \<in> set s. c \<notin> set ''0123456789-WLOT '')"
    unfolding score_to_tuple_cases by (rule if_None_iff)
  show "(\<forall>c \<in> set s. c \<in> set ''0123456789-WLOT '') \<longrightarrow>
      score_to_tuple s =
        Some (if CHR ''W'' \<in> set s
              then take 2 (map int_of_digits (findall_digits s))
              else rev (take 2 (map int_of_digits (findall_digits s))))"
  proof
    assume "\<forall>c \<in> set s. c \<in> set ''0123456789-WLOT ''"
    then have "\<not> (\<exists>c \<in> set s. c \<notin> set ''0123456789-WLOT '')"
      by blast
    then show "score_to_tuple s =
        Some (if CHR ''W'' \<in> set s
              then take 2 (map int_of_digits (findall_digits s))
              else rev (take 2 (map int_of_digits (findall_digits s))))"
      unfolding score_to_tuple_cases by (rule if_not_None)
  qed
  show "score_to_tuple ''W131-118'' = Some [131, 118]"
    by (simp add: score_to_tuple_def is_digit_def int_of_digits_def digit_value_def)
  show "score_to_tuple ''L112-109'' = Some [109, 112]"
    by (simp add: score_to_tuple_def is_digit_def int_of_digits_def digit_value_def)
  show "score_to_tuple ''garbage!!'' = None"
    by (simp add: score_to_tuple_def)
qed

theorem score_to_tuple_spec_witness:
  "score_to_tuple ''W123-120 OT'' = Some [123, 120] \<and> score_to_tuple ''W1x'' = None"
proof -
  have ok: "\<forall>c \<in> set ''W123-120 OT''. c \<in> set ''0123456789-WLOT ''"
    by simp
  have bad: "\<exists>c \<in> set ''W1x''. c \<notin> set ''0123456789-WLOT ''"
    by simp
  from score_to_tuple_spec [of "''W123-120 OT''"] ok
  have "score_to_tuple ''W123-120 OT'' =
      Some (if CHR ''W'' \<in> set ''W123-120 OT''
            then take 2 (map int_of_digits (findall_digits ''W123-120 OT''))
            else rev (take 2 (map int_of_digits (findall_digits ''W123-120 OT''))))"
    by blast
  then have a: "score_to_tuple ''W123-120 OT'' = Some [123, 120]"
    by (simp add: is_digit_def int_of_digits_def digit_value_def)
  from score_to_tuple_spec [of "''W1x''"] bad
  have "score_to_tuple ''W1x'' = None"
    by blast
  with a show ?thesis
    by blast
qed

text \<open>
  C1 as stated fails: the pair of "L112-109" starts with the smaller score, which is the
  team's and not the winner's, and the accepted label "W100-120" contains W and gives
  a pair whose first element is less than the second.
\<close>

theorem winner_first_counterexample:
  "score_to_tuple ''L112-109'' = Some [109, 112] \<and> \<not> (109 :: int) \<ge> 112 \<and>
   list_all (\<lambda>i. i \<in> set ''0123456789-WLOT '') ''W100-120'' \<and>
   CHR ''W'' \<in> set ''W100-120'' \<and>
   score_to_tuple ''W100-120'' = Some [100, 120] \<and> \<not> (100 :: int) \<ge> 120"
  by (simp add: score_to_tuple_def is_digit_def int_of_digits_def digit_value_def)

text \<open>
  C1, amended: the orientation of a two-element result follows the letter alone. With
  \<open>n1\<close>, \<open>n2\<close> the first two digit runs from left to right, the pair is
  \<open>[n1, n2]\<close> when the label contains W and \<open>[n2, n1]\<close> when it does not. So for
  a label that lists the larger score first, the first element is at least the second
  with W and at most the second without W: the first element is the team's score.
\<close>

theorem score_orientation_by_letter:
  assumes "score_to_tuple s = Some [a, b]"
  shows "\<exists>n1 n2. take 2 (map int_of_digits (findall_digits s)) = [n1, n2] \<and>
     (CHR ''W'' \<in> set s \<longrightarrow> a = n1 \<and> b = n2) \<and>
     (CHR ''W'' \<notin> set s \<longrightarrow> a = n2 \<and> b = n1) \<and>
     (n2 \<le> n1 \<longrightarrow> (CHR ''W'' \<in> set s \<longrightarrow> b \<le> a) \<and> (CHR ''W'' \<notin> set s \<longrightarrow> a \<le> b))"
proof (cases "CHR ''W'' \<in> set s")
  case True
  with assms have "take 2 (map int_of_digits (findall_digits s)) = [a, b]"
    by (simp add: score_to_tuple_cases split: if_splits)
  with True show ?thesis
    by simp
next
  case False
  with assms have "rev (take 2 (map int_of_digits (findall_digits s))) = [a, b]"
    by (simp add: score_to_tuple_cases split: if_splits)
  then have "take 2 (map int_of_digits (findall_digits s)) = [b, a]"
    by (simp add: rev_eq_Cons_iff)
  with False show ?thesis
    by simp
qed

theorem score_orientation_by_letter_witness:
  "score_to_tuple ''L112-109'' = Some [109, 112] \<and>
   take 2 (map int_of_digits (findall_digits ''L112-109'')) = [112, 109]"
proof -
  have h: "score_to_tuple ''L112-109'' = Some [109, 112]"
    by (simp add: score_to_tuple_def is_digit_def int_of_digits_def digit_value_def)
  from score_orientation_by_letter [OF h]
  have "take 2 (map int_of_digits (findall_digits ''L112-109'')) = [112, 109]"
    by auto
  with h show ?thesis
    by blast
qed

end
